theory Spec2Isabelle
  imports Main
begin

section \<open>Python values used by the relay models\<close>

text \<open>
  A Python \<open>str\<close> is a list of characters; the characters are the code points below 256.
  \<open>str.lower()\<close> maps the upper-case letters of that range (\<open>A\<close>-\<open>Z\<close>, and the
  Latin-1 capitals 192-222 without the multiplication sign 215) to the code point 32 above
  them and leaves every other character alone.
\<close>

definition lower_char :: "char \<Rightarrow> char" where
  "lower_char c =
     (let n = (of_char c :: nat)
      in if (65 \<le> n \<and> n \<le> 90) \<or> (192 \<le> n \<and> n \<le> 222 \<and> n \<noteq> 215)
         then char_of (n + 32) else c)"

definition lower :: "string \<Rightarrow> string" where
  "lower s = map lower_char s"

text \<open>
  The truth value Python gives a nullable string in \<open>if x:\<close> and \<open>if not x:\<close>:
  \<open>None\<close> and the empty string are false, every other string is true.
\<close>

definition truthy :: "string option \<Rightarrow> bool" where
  "truthy x = (case x of None \<Rightarrow> False | Some s \<Rightarrow> s \<noteq> [])"

section \<open>EthereumTxCallType (relay/models.py, lines 17-30)\<close>

datatype EthereumTxCallType = CALL | DELEGATE_CALL

text \<open>
  \<open>parse_call_type(call_type: str)\<close>; the argument may also be \<open>None\<close>. The source has no
  \<open>raise\<close>, and the two operations it applies to a string (\<open>not\<close> and \<open>lower()\<close>) are
  defined on every string, so the result type has no error branch.
\<close>

definition parse_call_type :: "string option \<Rightarrow> EthereumTxCallType option" where
  "parse_call_type call_type =
     (case call_type of
        None \<Rightarrow> None
      | Some s \<Rightarrow>
          if \<not> truthy (Some s) then None
          else if lower s = ''call'' then Some CALL
          else if lower s = ''delegatecall'' then Some DELEGATE_CALL
          else None)"

text \<open>
  The casings of a lower-case ASCII word: the strings of the same length whose characters
  are, position by position, the word's letter or its capital.
\<close>

definition ascii_upper :: "char \<Rightarrow> char" where
  "ascii_upper c =
     (let n = (of_char c :: nat) in if 97 \<le> n \<and> n \<le> 122 then char_of (n - 32) else c)"

definition casing_of :: "string \<Rightarrow> string \<Rightarrow> bool" where
  "casing_of w s = list_all2 (\<lambda>x c. c = x \<or> c = ascii_upper x) w s"

definition ascii_lower_word :: "string \<Rightarrow> bool" where
  "ascii_lower_word w = list_all (\<lambda>x. 97 \<le> (of_char x :: nat) \<and> (of_char x :: nat) \<le> 122) w"

section \<open>SafeFunding (relay/models.py, lines 159-200)\<close>

text \<open>
  The hash fields are nullable (\<open>Sha3HashField(unique=True, blank=True, null=True)\<close>): a
  hash is \<open>None\<close> or the hexadecimal string the field holds. The timestamps of
  \<open>TimeStampedModel\<close> are left out of every record.
\<close>

record SafeFunding =
  safe :: string
  safe_funded :: bool
  deployer_funded :: bool
  deployer_funded_tx_hash :: "string option"
  safe_deployed :: bool
  safe_deployed_tx_hash :: "string option"

definition is_all_funded :: "SafeFunding \<Rightarrow> bool" where
  "is_all_funded self = (safe_funded self \<and> deployer_funded self)"

definition status :: "SafeFunding \<Rightarrow> string" where
  "status self =
     (if safe_deployed self then ''DEPLOYED''
      else if truthy (safe_deployed_tx_hash self) then ''DEPLOYED_UNCHECKED''
      else if deployer_funded self then ''DEPLOYER_FUNDED''
      else if truthy (deployer_funded_tx_hash self) then ''DEPLOYER_FUNDED_UNCHECKED''
      else if safe_funded self then ''DEPLOYER_NOT_FUNDED_SAFE_WITH_BALANCE''
      else ''SAFE_WITHOUT_BALANCE'')"

text \<open>
  The lifecycle states of the specification (section 4.3), the state each string returned
  by \<open>status\<close> stands for, and the position of a state in the lifecycle ordering
  \<open>NOT_FUNDED < FUNDED_AWAITING_DEPLOYER < DEPLOYER_FUNDED_UNCONFIRMED < DEPLOYER_FUNDED
  < DEPLOYED_UNCONFIRMED < DEPLOYED\<close>.
\<close>

datatype FundingStatus =
    NOT_FUNDED
  | FUNDED_AWAITING_DEPLOYER
  | DEPLOYER_FUNDED_UNCONFIRMED
  | DEPLOYER_FUNDED
  | DEPLOYED_UNCONFIRMED
  | DEPLOYED

definition lifecycle_state :: "string \<Rightarrow> FundingStatus option" where
  "lifecycle_state s =
     (if s = ''DEPLOYED'' then Some DEPLOYED
      else if s = ''DEPLOYED_UNCHECKED'' then Some DEPLOYED_UNCONFIRMED
      else if s = ''DEPLOYER_FUNDED'' then Some DEPLOYER_FUNDED
      else if s = ''DEPLOYER_FUNDED_UNCHECKED'' then Some DEPLOYER_FUNDED_UNCONFIRMED
      else if s = ''DEPLOYER_NOT_FUNDED_SAFE_WITH_BALANCE'' then Some FUNDED_AWAITING_DEPLOYER
      else if s = ''SAFE_WITHOUT_BALANCE'' then Some NOT_FUNDED
      else None)"

fun rank :: "FundingStatus \<Rightarrow> nat" where
  "rank NOT_FUNDED = 0"
| "rank FUNDED_AWAITING_DEPLOYER = 1"
| "rank DEPLOYER_FUNDED_UNCONFIRMED = 2"
| "rank DEPLOYER_FUNDED = 3"
| "rank DEPLOYED_UNCONFIRMED = 4"
| "rank DEPLOYED = 5"

text \<open>
  \<open>has_facts_of f1 f2\<close>: the record \<open>f2\<close> has every boolean flag that is set in \<open>f1\<close> and
  every hash that is not null in \<open>f1\<close>.
\<close>

definition has_facts_of :: "SafeFunding \<Rightarrow> SafeFunding \<Rightarrow> bool" where
  "has_facts_of f1 f2 =
     ((safe_funded f1 \<longrightarrow> safe_funded f2) \<and>
      (deployer_funded f1 \<longrightarrow> deployer_funded f2) \<and>
      (safe_deployed f1 \<longrightarrow> safe_deployed f2) \<and>
      (deployer_funded_tx_hash f1 \<noteq> None \<longrightarrow>
         deployer_funded_tx_hash f2 = deployer_funded_tx_hash f1) \<and>
      (safe_deployed_tx_hash f1 \<noteq> None \<longrightarrow>
         safe_deployed_tx_hash f2 = safe_deployed_tx_hash f1))"

section \<open>The stored models (relay/models.py)\<close>

text \<open>
  One record per model class, with the fields of the class in the order of the source.
  Addresses and hashes are strings, \<open>Uint256Field\<close> and the positive integer fields are
  natural numbers, \<open>IntegerField\<close> is an integer, \<open>BinaryField\<close> is a string of bytes,
  and a field declared \<open>null=True\<close> is an option. A foreign key or one-to-one field holds
  the primary key of the row it points to. The field \<open>_from\<close> is named \<open>from_field\<close> and
  the field \<open>value\<close> is named \<open>value_field\<close>.
\<close>

record SafeContract =
  address :: string
  master_copy :: string

record SafeCreation2 =
  safe :: string
  master_copy :: string
  proxy_factory :: string
  salt_nonce :: nat
  owners :: "string list"
  threshold :: nat
  payment_token :: "string option"
  payment :: nat
  payment_receiver :: "string option"
  setup_data :: "string option"
  gas_estimated :: nat
  gas_price_estimated :: nat
  tx_hash :: "string option"
  block_number :: "int option"

definition deployed :: "SafeCreation2 \<Rightarrow> bool" where
  "deployed self = (SafeCreation2.block_number self \<noteq> None)"

definition wei_estimated_deploy_cost :: "SafeCreation2 \<Rightarrow> nat" where
  "wei_estimated_deploy_cost self = gas_estimated self * gas_price_estimated self"

record EthereumTx =
  tx_hash :: string
  block_number :: "int option"
  gas_used :: "nat option"
  from_field :: "string option"
  gas :: nat
  gas_price :: nat
  data :: "string option"
  nonce :: nat
  to :: "string option"
  value_field :: nat

record SafeMultisigTx =
  safe :: string
  ethereum_tx :: string
  to :: "string option"
  value_field :: nat
  data :: "string option"
  operation :: nat
  safe_tx_gas :: nat
  data_gas :: nat
  gas_price :: nat
  gas_token :: "string option"
  refund_receiver :: "string option"
  signatures :: string
  nonce :: nat
  safe_tx_hash :: "string option"

section \<open>The database the models are stored in\<close>

text \<open>
  A table is the list of its rows; the tables carry Django's names for them. The store
  enforces what the model classes declare: a primary key, \<open>unique=True\<close>,
  \<open>unique_together\<close> and the existence of the row a foreign key points to. SQL never
  finds two nulls equal, so a unique nullable column may hold any number of nulls. A write
  that would break a declared constraint raises \<open>IntegrityError\<close> and changes nothing.
  Rows are written and never deleted.
\<close>

record store =
  relay_safecontract :: "SafeContract list"
  relay_safecreation2 :: "SafeCreation2 list"
  relay_safefunding :: "SafeFunding list"
  relay_ethereumtx :: "EthereumTx list"
  relay_safemultisigtx :: "SafeMultisigTx list"

datatype db_error = IntegrityError | DoesNotExist | MultipleObjectsReturned

text \<open>
  \<open>Manager.get(...)\<close>: the one row that matches; \<open>DoesNotExist\<close> when no row matches and
  \<open>MultipleObjectsReturned\<close> when several do.
\<close>

definition objects_get :: "('r \<Rightarrow> bool) \<Rightarrow> 'r list \<Rightarrow> db_error + 'r" where
  "objects_get p rows =
     (case filter p rows of
        [] \<Rightarrow> Inl DoesNotExist
      | [r] \<Rightarrow> Inr r
      | _ \<Rightarrow> Inl MultipleObjectsReturned)"

text \<open>A value of a unique nullable column clashes with the rows that hold the same non-null value.\<close>

definition clashes :: "('r \<Rightarrow> 'v option) \<Rightarrow> 'v option \<Rightarrow> 'r list \<Rightarrow> bool" where
  "clashes col v rows = (v \<noteq> None \<and> v \<in> set (map col rows))"

text \<open>
  \<open>Model.save()\<close> of a model whose primary key is a field of its own: the row replaces the
  stored row with the same primary key, or is inserted when there is none.
\<close>

definition save_SafeContract :: "store \<Rightarrow> SafeContract \<Rightarrow> db_error + store" where
  "save_SafeContract db row =
     (let others = filter (\<lambda>r. address r \<noteq> address row) (relay_safecontract db)
      in Inr (db\<lparr>relay_safecontract := others @ [row]\<rparr>))"

definition save_SafeCreation2 :: "store \<Rightarrow> SafeCreation2 \<Rightarrow> db_error + store" where
  "save_SafeCreation2 db row =
     (let others = filter (\<lambda>r. SafeCreation2.safe r \<noteq> SafeCreation2.safe row)
                     (relay_safecreation2 db)
      in if SafeCreation2.safe row \<notin> set (map address (relay_safecontract db))
         then Inl IntegrityError
         else if clashes SafeCreation2.tx_hash (SafeCreation2.tx_hash row) others
         then Inl IntegrityError
         else Inr (db\<lparr>relay_safecreation2 := others @ [row]\<rparr>))"

definition save_SafeFunding :: "store \<Rightarrow> SafeFunding \<Rightarrow> db_error + store" where
  "save_SafeFunding db row =
     (let others = filter (\<lambda>r. SafeFunding.safe r \<noteq> SafeFunding.safe row)
                     (relay_safefunding db)
      in if SafeFunding.safe row \<notin> set (map address (relay_safecontract db))
         then Inl IntegrityError
         else if clashes deployer_funded_tx_hash (deployer_funded_tx_hash row) others
         then Inl IntegrityError
         else if clashes safe_deployed_tx_hash (safe_deployed_tx_hash row) others
         then Inl IntegrityError
         else Inr (db\<lparr>relay_safefunding := others @ [row]\<rparr>))"

text \<open>\<open>Manager.create(...)\<close>: the insert of a new row.\<close>

definition create_EthereumTx :: "store \<Rightarrow> EthereumTx \<Rightarrow> db_error + store" where
  "create_EthereumTx db row =
     (if EthereumTx.tx_hash row \<in> set (map EthereumTx.tx_hash (relay_ethereumtx db))
      then Inl IntegrityError
      else Inr (db\<lparr>relay_ethereumtx := relay_ethereumtx db @ [row]\<rparr>))"

definition create_SafeMultisigTx :: "store \<Rightarrow> SafeMultisigTx \<Rightarrow> db_error + store" where
  "create_SafeMultisigTx db row =
     (let rows = relay_safemultisigtx db
      in if SafeMultisigTx.safe row \<notin> set (map address (relay_safecontract db))
         then Inl IntegrityError
         else if ethereum_tx row \<notin> set (map EthereumTx.tx_hash (relay_ethereumtx db))
         then Inl IntegrityError
         else if (SafeMultisigTx.safe row, SafeMultisigTx.nonce row)
                   \<in> set (map (\<lambda>r. (SafeMultisigTx.safe r, SafeMultisigTx.nonce r)) rows)
         then Inl IntegrityError
         else if clashes safe_tx_hash (safe_tx_hash row) rows
         then Inl IntegrityError
         else Inr (db\<lparr>relay_safemultisigtx := rows @ [row]\<rparr>))"

text \<open>
  A sequence of writes, each in a transaction of its own: a write that raises leaves the
  store as it was and the sequence goes on.
\<close>

datatype db_write =
    SaveSafeContract SafeContract
  | SaveSafeCreation2 SafeCreation2
  | SaveSafeFunding SafeFunding
  | CreateEthereumTx EthereumTx
  | CreateSafeMultisigTx SafeMultisigTx

fun apply_write :: "store \<Rightarrow> db_write \<Rightarrow> db_error + store" where
  "apply_write db (SaveSafeContract row) = save_SafeContract db row"
| "apply_write db (SaveSafeCreation2 row) = save_SafeCreation2 db row"
| "apply_write db (SaveSafeFunding row) = save_SafeFunding db row"
| "apply_write db (CreateEthereumTx row) = create_EthereumTx db row"
| "apply_write db (CreateSafeMultisigTx row) = create_SafeMultisigTx db row"

fun run_writes :: "store \<Rightarrow> db_write list \<Rightarrow> store" where
  "run_writes db [] = db"
| "run_writes db (w # ws) =
     (case apply_write db w of
        Inl e \<Rightarrow> run_writes db ws
      | Inr db' \<Rightarrow> run_writes db' ws)"

definition empty_store :: store where
  "empty_store =
     \<lparr>relay_safecontract = [], relay_safecreation2 = [], relay_safefunding = [],
      relay_ethereumtx = [], relay_safemultisigtx = []\<rparr>"

text \<open>
  The constraints as properties of a store: no two transactions of a wallet with the same
  nonce, and no two rows of a table with the same non-null hash in a unique column.
\<close>

definition nonce_unique :: "store \<Rightarrow> bool" where
  "nonce_unique db =
     distinct (map (\<lambda>r. (SafeMultisigTx.safe r, SafeMultisigTx.nonce r)) (relay_safemultisigtx db))"

definition column_unique :: "('r \<Rightarrow> 'v option) \<Rightarrow> 'r list \<Rightarrow> bool" where
  "column_unique col rows = distinct (filter (\<lambda>v. v \<noteq> None) (map col rows))"

definition hashes_unique :: "store \<Rightarrow> bool" where
  "hashes_unique db =
     (distinct (map SafeCreation2.safe (relay_safecreation2 db)) \<and>
      distinct (map SafeFunding.safe (relay_safefunding db)) \<and>
      column_unique SafeCreation2.tx_hash (relay_safecreation2 db) \<and>
      column_unique deployer_funded_tx_hash (relay_safefunding db) \<and>
      column_unique safe_deployed_tx_hash (relay_safefunding db))"

section \<open>SafeMultisigTxManager (relay/models.py, lines 235-238)\<close>

text \<open>
  \<open>filter(safe=safe_address).order_by('-nonce').first()\<close>: the wallet's rows, by
  descending nonce, and the first of them if there is one. A model instance is always
  true, so \<open>tx.nonce if tx else None\<close> is \<open>None\<close> only when there is no row.

  \<open>filter(safe=...)\<close> does not compare the argument as it is given: the lookup value goes
  through the field of the key it is compared with, the \<open>EthereumAddressField\<close> of
  \<open>SafeContract.address\<close>, which replaces an address by its checksummed spelling and raises
  \<open>ValidationError\<close> for a string that is no address. The field is not part of the source;
  its preparation of a lookup value is the parameter \<open>get_prep_value\<close>, with \<open>None\<close> where
  it raises. The rows hold their addresses in the checksummed spelling.
\<close>

datatype lookup_error = ValidationError

definition order_by_desc :: "('r \<Rightarrow> nat) \<Rightarrow> 'r list \<Rightarrow> 'r list" where
  "order_by_desc key rows = rev (sort_key key rows)"

definition first :: "'r list \<Rightarrow> 'r option" where
  "first rows = (case rows of [] \<Rightarrow> None | r # _ \<Rightarrow> Some r)"

definition get_last_nonce_for_safe ::
  "(string \<Rightarrow> string option) \<Rightarrow> store \<Rightarrow> string \<Rightarrow> lookup_error + nat option" where
  "get_last_nonce_for_safe get_prep_value db safe_address =
     (case get_prep_value safe_address of
        None \<Rightarrow> Inl ValidationError
      | Some key \<Rightarrow>
          (case first (order_by_desc SafeMultisigTx.nonce
                         (filter (\<lambda>r. SafeMultisigTx.safe r = key) (relay_safemultisigtx db))) of
             None \<Rightarrow> Inr None
           | Some tx \<Rightarrow> Inr (Some (SafeMultisigTx.nonce tx))))"

text \<open>The nonces stored for a wallet.\<close>

definition nonces_of :: "store \<Rightarrow> string \<Rightarrow> nat set" where
  "nonces_of db safe_address =
     set (map SafeMultisigTx.nonce
            (filter (\<lambda>r. SafeMultisigTx.safe r = safe_address) (relay_safemultisigtx db)))"

section \<open>SafeSignalView (relay/views_v2.py, lines 85-122)\<close>

text \<open>
  A response is its HTTP status and its data. The state a view runs in is the store and
  the queue of the task \<open>deploy_create2_safe_task\<close>; \<open>delay(address)\<close> puts the address
  at the end of the queue. The argument \<open>address\<close> of a view is named \<open>addr\<close>.
  \<open>Web3.isChecksumAddress\<close> and the response serializer are not part of the source: both
  are parameters of the views. An exception a view does not catch is the left branch of
  its result.
\<close>

datatype 'd Response = Response nat "'d option"

definition HTTP_200_OK :: nat where "HTTP_200_OK = 200"
definition HTTP_202_ACCEPTED :: nat where "HTTP_202_ACCEPTED = 202"
definition HTTP_404_NOT_FOUND :: nat where "HTTP_404_NOT_FOUND = 404"
definition HTTP_422_UNPROCESSABLE_ENTITY :: nat where "HTTP_422_UNPROCESSABLE_ENTITY = 422"

record world =
  database :: store
  task_queue :: "string list"

definition SafeSignalView_get ::
  "(string \<Rightarrow> bool) \<Rightarrow> (SafeCreation2 \<Rightarrow> 'd) \<Rightarrow> world \<Rightarrow> string
     \<Rightarrow> (db_error + 'd Response) \<times> world" where
  "SafeSignalView_get isChecksumAddress serializer w addr =
     (if \<not> isChecksumAddress addr
      then (Inr (Response HTTP_422_UNPROCESSABLE_ENTITY None), w)
      else case objects_get (\<lambda>r. SafeCreation2.safe r = addr) (relay_safecreation2 (database w)) of
             Inr safe_creation2 \<Rightarrow> (Inr (Response HTTP_200_OK (Some (serializer safe_creation2))), w)
           | Inl DoesNotExist \<Rightarrow> (Inr (Response HTTP_404_NOT_FOUND None), w)
           | Inl e \<Rightarrow> (Inl e, w))"

definition SafeSignalView_put ::
  "(string \<Rightarrow> bool) \<Rightarrow> world \<Rightarrow> string \<Rightarrow> (db_error + 'd Response) \<times> world" where
  "SafeSignalView_put isChecksumAddress w addr =
     (if \<not> isChecksumAddress addr
      then (Inr (Response HTTP_422_UNPROCESSABLE_ENTITY None), w)
      else case objects_get (\<lambda>r. address r = addr) (relay_safecontract (database w)) of
             Inl DoesNotExist \<Rightarrow> (Inr (Response HTTP_404_NOT_FOUND None), w)
           | Inl e \<Rightarrow> (Inl e, w)
           | Inr safe_contract \<Rightarrow>
               (Inr (Response HTTP_202_ACCEPTED None), w\<lparr>task_queue := task_queue w @ [addr]\<rparr>))"

section \<open>RedisService (safe/redis_service.py)\<close>

text \<open>
  Objects live in a heap and are known by their references. The class attribute
  \<open>RedisService.instance\<close> is absent (\<open>None\<close> here) until \<open>__new__\<close> sets it. A
  \<open>RedisService\<close> object has one attribute, \<open>redis\<close>, absent until \<open>__init__\<close> sets it;
  \<open>Redis.from_url\<close> makes a new client object for the URL. \<open>settings.REDIS_URL\<close> is a
  parameter. Calling the class runs \<open>__new__\<close> and then \<open>__init__\<close> on the object
  \<open>__new__\<close> returned.
\<close>

datatype pyobject = RedisServiceObject "nat option" | RedisObject string

record interpreter =
  RedisService_instance :: "nat option"
  heap :: "nat \<Rightarrow> pyobject option"
  next_ref :: nat

definition allocate :: "pyobject \<Rightarrow> interpreter \<Rightarrow> nat \<times> interpreter" where
  "allocate obj s = (next_ref s, s\<lparr>heap := (heap s)(next_ref s \<mapsto> obj), next_ref := Suc (next_ref s)\<rparr>)"

definition RedisService_new :: "interpreter \<Rightarrow> nat \<times> interpreter" where
  "RedisService_new s =
     (case RedisService_instance s of
        Some obj \<Rightarrow> (obj, s)
      | None \<Rightarrow>
          (let (obj, s') = allocate (RedisServiceObject None) s
           in (obj, s'\<lparr>RedisService_instance := Some obj\<rparr>)))"

definition Redis_from_url :: "string \<Rightarrow> interpreter \<Rightarrow> nat \<times> interpreter" where
  "Redis_from_url url s = allocate (RedisObject url) s"

definition RedisService_init :: "string \<Rightarrow> nat \<Rightarrow> interpreter \<Rightarrow> interpreter" where
  "RedisService_init REDIS_URL self s =
     (let (client, s') = Redis_from_url REDIS_URL s
      in s'\<lparr>heap := (heap s')(self \<mapsto> RedisServiceObject (Some client))\<rparr>)"

definition RedisService :: "string \<Rightarrow> interpreter \<Rightarrow> nat \<times> interpreter" where
  "RedisService REDIS_URL s =
     (let (obj, s') = RedisService_new s in (obj, RedisService_init REDIS_URL obj s'))"

text \<open>
  References are handed out in increasing order, so in a state the interpreter can be in,
  the instance the class attribute holds is a reference already handed out.
\<close>

definition wf_interpreter :: "interpreter \<Rightarrow> bool" where
  "wf_interpreter s =
     (case RedisService_instance s of None \<Rightarrow> True | Some obj \<Rightarrow> obj < next_ref s)"

text \<open>The objects returned by \<open>n\<close> constructor calls in a row, and the state after them.\<close>

fun constructions :: "string \<Rightarrow> nat \<Rightarrow> interpreter \<Rightarrow> nat list \<times> interpreter" where
  "constructions REDIS_URL 0 s = ([], s)"
| "constructions REDIS_URL (Suc n) s =
     (let (obj, s') = RedisService REDIS_URL s;
          (objs, s'') = constructions REDIS_URL n s'
      in (obj # objs, s''))"

definition fresh_interpreter :: interpreter where
  "fresh_interpreter = \<lparr>RedisService_instance = None, heap = (\<lambda>_. None), next_ref = 0\<rparr>"

section \<open>Sample rows\<close>

text \<open>
  Concrete rows and states for the examples below. \<open>wallet_A\<close>, \<open>wallet_B\<close> and \<open>wallet_C\<close>
  are three addresses in their checksummed spelling (the first three examples of EIP-55),
  and \<open>wallet_A_lower\<close> is the first one spelled in lower case, which is not its checksummed
  spelling. \<open>prepares_samples\<close> prepares a lookup value as \<open>EthereumAddressField\<close> does on
  the four sample spellings (the checksummed spelling of the address) and on the string
  \<open>not an address\<close> (it raises); it is used on no other string. \<open>accepts_samples\<close> is a
  checksum test that accepts \<open>wallet_A\<close> and \<open>wallet_B\<close> and nothing else; on \<open>wallet_A\<close>,
  \<open>wallet_B\<close> and \<open>wallet_A_lower\<close>, the addresses it is used on, it answers as
  \<open>Web3.isChecksumAddress\<close> does. \<open>hash_and_block\<close> is a serializer that renders the
  transaction hash and the block number of a row.
\<close>

definition wallet_A :: string where
  "wallet_A = ''0x5aAeb6053F3E94C9b9A09f33669435E7Ef1BeAed''"

definition wallet_B :: string where
  "wallet_B = ''0xfB6916095ca1df60bB79Ce92cE3Ea74c37c5d359''"

definition wallet_A_lower :: string where
  "wallet_A_lower = ''0x5aaeb6053f3e94c9b9a09f33669435e7ef1beaed''"

definition wallet_C :: string where
  "wallet_C = ''0xdbF03B407c01E7cD3CBea99509d93f8DDDC8C6FB''"

definition prepares_samples :: "string \<Rightarrow> string option" where
  "prepares_samples a =
     (if a = wallet_A \<or> a = wallet_A_lower then Some wallet_A
      else if a = wallet_B then Some wallet_B
      else if a = wallet_C then Some wallet_C
      else None)"

definition accepts_samples :: "string \<Rightarrow> bool" where
  "accepts_samples a = (a = wallet_A \<or> a = wallet_B)"

definition hash_and_block :: "SafeCreation2 \<Rightarrow> string option \<times> int option" where
  "hash_and_block r = (SafeCreation2.tx_hash r, SafeCreation2.block_number r)"

definition sample_contract :: "string \<Rightarrow> SafeContract" where
  "sample_contract a = \<lparr>address = a, SafeContract.master_copy = ''0xMasterCopy''\<rparr>"

definition sample_creation2 :: "string \<Rightarrow> string option \<Rightarrow> int option \<Rightarrow> SafeCreation2" where
  "sample_creation2 a h b =
     \<lparr>SafeCreation2.safe = a, SafeCreation2.master_copy = ''0xMasterCopy'',
      proxy_factory = ''0xProxyFactory'', salt_nonce = 7, owners = [''0xOwner1'', ''0xOwner2''],
      threshold = 2, payment_token = None, payment = 1000, payment_receiver = None,
      setup_data = None, gas_estimated = 250000, gas_price_estimated = 4,
      SafeCreation2.tx_hash = h, SafeCreation2.block_number = b\<rparr>"

definition sample_funding :: "string \<Rightarrow> bool \<Rightarrow> bool \<Rightarrow> string option \<Rightarrow> bool \<Rightarrow> string option \<Rightarrow> SafeFunding" where
  "sample_funding a sf df dfh sd sdh =
     \<lparr>SafeFunding.safe = a, safe_funded = sf, deployer_funded = df,
      deployer_funded_tx_hash = dfh, safe_deployed = sd, safe_deployed_tx_hash = sdh\<rparr>"

definition sample_ethereum_tx :: "string \<Rightarrow> EthereumTx" where
  "sample_ethereum_tx h =
     \<lparr>EthereumTx.tx_hash = h, EthereumTx.block_number = None, gas_used = None,
      from_field = Some ''0xSender'', gas = 100000, EthereumTx.gas_price = 4,
      EthereumTx.data = None, EthereumTx.nonce = 0, EthereumTx.to = None,
      EthereumTx.value_field = 0\<rparr>"

definition sample_multisig_tx :: "string \<Rightarrow> nat \<Rightarrow> SafeMultisigTx" where
  "sample_multisig_tx a n =
     \<lparr>SafeMultisigTx.safe = a, ethereum_tx = ''0xe1'', SafeMultisigTx.to = None,
      SafeMultisigTx.value_field = 0, SafeMultisigTx.data = None, operation = 0,
      safe_tx_gas = 50000, data_gas = 30000, SafeMultisigTx.gas_price = 4, gas_token = None,
      refund_receiver = None, signatures = ''sig'', SafeMultisigTx.nonce = n,
      safe_tx_hash = None\<rparr>"

text \<open>
  Another transaction of a wallet for a nonce: it differs from \<open>sample_multisig_tx\<close> in its
  signatures and its transaction hash.
\<close>

definition other_multisig_tx :: "string \<Rightarrow> nat \<Rightarrow> SafeMultisigTx" where
  "other_multisig_tx a n =
     (sample_multisig_tx a n)\<lparr>signatures := ''other sig'', safe_tx_hash := Some ''0x51''\<rparr>"

text \<open>
  Two wallets, one transaction record, and multisig transactions: the nonces 0, 2
  and 1 for \<open>wallet_A\<close>, tried in that order with another transaction tried for nonce 0
  after the first, and the nonce 7 for \<open>wallet_B\<close>.
\<close>

definition sample_writes :: "db_write list" where
  "sample_writes =
     [SaveSafeContract (sample_contract wallet_A),
      SaveSafeContract (sample_contract wallet_B),
      CreateEthereumTx (sample_ethereum_tx ''0xe1''),
      CreateSafeMultisigTx (sample_multisig_tx wallet_A 0),
      CreateSafeMultisigTx (sample_multisig_tx wallet_A 2),
      CreateSafeMultisigTx (other_multisig_tx wallet_A 0),
      CreateSafeMultisigTx (sample_multisig_tx wallet_B 7),
      CreateSafeMultisigTx (sample_multisig_tx wallet_A 1)]"

definition sample_ledger :: store where
  "sample_ledger = run_writes empty_store sample_writes"

text \<open>
  Writes on \<open>sample_ledger\<close>: another transaction for the taken nonce 2 of \<open>wallet_A\<close>, and
  a transaction for its free nonce 3.
\<close>

definition sample_retry_writes :: "db_write list" where
  "sample_retry_writes =
     [CreateSafeMultisigTx (other_multisig_tx wallet_A 2),
      CreateSafeMultisigTx (sample_multisig_tx wallet_A 3)]"

text \<open>
  A store with \<open>wallet_A\<close> alone: its contract row, its deployment intent, submitted and
  mined, and its funding record with a deployer-funding hash. \<open>wallet_B\<close> has no row.
\<close>

definition sample_store :: store where
  "sample_store =
     \<lparr>relay_safecontract = [sample_contract wallet_A],
      relay_safecreation2 = [sample_creation2 wallet_A (Some ''0xd1'') (Some 5000000)],
      relay_safefunding = [sample_funding wallet_A True False (Some ''0xf1'') False None],
      relay_ethereumtx = [],
      relay_safemultisigtx = []\<rparr>"

definition sample_world :: world where
  "sample_world = \<lparr>database = sample_store, task_queue = []\<rparr>"

text \<open>
  Writes on \<open>sample_store\<close>: the funding record of \<open>wallet_A\<close> saved with another
  deployer-funding hash, then \<open>wallet_B\<close> created, a funding record for \<open>wallet_B\<close> with the
  hash \<open>wallet_A\<close> now holds, and an intent for \<open>wallet_B\<close> with the submission hash of
  \<open>wallet_A\<close>.
\<close>

definition sample_hash_writes :: "db_write list" where
  "sample_hash_writes =
     [SaveSafeFunding (sample_funding wallet_A True False (Some ''0xf2'') False None),
      SaveSafeContract (sample_contract wallet_B),
      SaveSafeFunding (sample_funding wallet_B False False (Some ''0xf2'') False None),
      SaveSafeCreation2 (sample_creation2 wallet_B (Some ''0xd1'') None)]"

section \<open>parse_call_type\<close>

lemma of_char_lower_char:
  "(of_char (lower_char c) :: nat) =
     (if (65 \<le> (of_char c :: nat) \<and> (of_char c :: nat) \<le> 90) \<or>
         (192 \<le> (of_char c :: nat) \<and> (of_char c :: nat) \<le> 222 \<and> (of_char c :: nat) \<noteq> 215)
      then of_char c + 32 else of_char c)"
  by (auto simp: lower_char_def Let_def)

lemma of_char_ascii_upper:
  "(of_char (ascii_upper x) :: nat) =
     (if 97 \<le> (of_char x :: nat) \<and> (of_char x :: nat) \<le> 122 then of_char x - 32 else of_char x)"
  by (auto simp: ascii_upper_def Let_def)

lemma lower_char_eq_iff:
  assumes "97 \<le> (of_char x :: nat)" "(of_char x :: nat) \<le> 122"
  shows "lower_char c = x \<longleftrightarrow> c = x \<or> c = ascii_upper x"
proof -
  have "lower_char c = x \<longleftrightarrow> (of_char (lower_char c) :: nat) = of_char x"
    by simp
  also have "\<dots> \<longleftrightarrow> (of_char c :: nat) = of_char x \<or> (of_char c :: nat) = of_char (ascii_upper x)"
    using assms by (auto simp: of_char_lower_char of_char_ascii_upper)
  also have "\<dots> \<longleftrightarrow> c = x \<or> c = ascii_upper x"
    by simp
  finally show ?thesis .
qed

lemma lower_eq_iff_casing:
  "ascii_lower_word w \<Longrightarrow> lower s = w \<longleftrightarrow> casing_of w s"
proof (induction w arbitrary: s)
  case Nil
  then show ?case by (simp add: lower_def casing_of_def)
next
  case (Cons x w)
  then have x: "97 \<le> (of_char x :: nat)" "(of_char x :: nat) \<le> 122" and w: "ascii_lower_word w"
    by (simp_all add: ascii_lower_word_def)
  show ?case
  proof (cases s)
    case Nil
    then show ?thesis by (simp add: lower_def casing_of_def)
  next
    case (Cons c s')
    have "lower s' = w \<longleftrightarrow> casing_of w s'" using Cons.IH w by simp
    then show ?thesis
      using lower_char_eq_iff[OF x, of c] Cons
      by (auto simp: lower_def casing_of_def)
  qed
qed

lemma call_word: "ascii_lower_word ''call''"
  by (simp add: ascii_lower_word_def)

lemma delegatecall_word: "ascii_lower_word ''delegatecall''"
  by (simp add: ascii_lower_word_def)

text \<open>
  Claim C10. \<open>parse_call_type\<close> is total on its inputs: it returns \<open>None\<close> for \<open>None\<close> and
  for the empty string, \<open>CALL\<close> for every casing of \<open>call\<close>, \<open>DELEGATE_CALL\<close> for every
  casing of \<open>delegatecall\<close>, and \<open>None\<close> for every other string. The function has no error
  result, so it never raises.
\<close>

theorem parse_call_type_total:
  "parse_call_type None = None \<and>
   parse_call_type (Some []) = None \<and>
   (casing_of ''call'' s \<longrightarrow> parse_call_type (Some s) = Some CALL) \<and>
   (casing_of ''delegatecall'' s \<longrightarrow> parse_call_type (Some s) = Some DELEGATE_CALL) \<and>
   (\<not> casing_of ''call'' s \<and> \<not> casing_of ''delegatecall'' s \<longrightarrow> parse_call_type (Some s) = None)"
proof -
  have c: "lower s = ''call'' \<longleftrightarrow> casing_of ''call'' s"
    by (rule lower_eq_iff_casing[OF call_word])
  have d: "lower s = ''delegatecall'' \<longleftrightarrow> casing_of ''delegatecall'' s"
    by (rule lower_eq_iff_casing[OF delegatecall_word])
  have ne: "casing_of ''call'' s \<Longrightarrow> s \<noteq> []" "casing_of ''delegatecall'' s \<Longrightarrow> s \<noteq> []"
    by (auto simp: casing_of_def)
  have nd: "casing_of ''delegatecall'' s \<Longrightarrow> \<not> casing_of ''call'' s"
  proof
    assume a: "casing_of ''delegatecall'' s" and b: "casing_of ''call'' s"
    from a have "length s = 12" by (auto simp: casing_of_def dest: list_all2_lengthD)
    moreover from b have "length s = 4" by (auto simp: casing_of_def dest: list_all2_lengthD)
    ultimately show False by simp
  qed
  show ?thesis
    using ne nd by (auto simp: parse_call_type_def truthy_def c d)
qed

text \<open>
  The theorem of claim C10 at \<open>CaLl\<close>, at \<open>DelegateCALL\<close> and at \<open>delegate_call\<close>, which is
  a casing of neither word.
\<close>

theorem parse_call_type_total_witness:
  "casing_of ''call'' ''CaLl'' \<and> parse_call_type (Some ''CaLl'') = Some CALL \<and>
   casing_of ''delegatecall'' ''DelegateCALL'' \<and>
   parse_call_type (Some ''DelegateCALL'') = Some DELEGATE_CALL \<and>
   \<not> casing_of ''call'' ''delegate_call'' \<and> \<not> casing_of ''delegatecall'' ''delegate_call'' \<and>
   parse_call_type (Some ''delegate_call'') = None"
proof -
  have a: "casing_of ''call'' ''CaLl''" by code_simp
  have b: "casing_of ''delegatecall'' ''DelegateCALL''" by code_simp
  have c: "\<not> casing_of ''call'' ''delegate_call''" "\<not> casing_of ''delegatecall'' ''delegate_call''"
    by code_simp+
  show ?thesis
    using a b c parse_call_type_total [of "''CaLl''"] parse_call_type_total [of "''DelegateCALL''"]
      parse_call_type_total [of "''delegate_call''"]
    by blast
qed

section \<open>The status of a SafeFunding record\<close>

text \<open>
  Claim C2. \<open>status\<close> maps the recorded facts to the lifecycle states in a fixed priority
  order: \<open>DEPLOYED\<close> when the deployment is marked mined; otherwise
  \<open>DEPLOYED_UNCONFIRMED\<close> when a deployment hash is recorded; otherwise \<open>DEPLOYER_FUNDED\<close>
  when the deployer funding is marked mined; otherwise \<open>DEPLOYER_FUNDED_UNCONFIRMED\<close> when a
  deployer-funding hash is recorded; otherwise \<open>FUNDED_AWAITING_DEPLOYER\<close> when the balance
  fact is set; otherwise \<open>NOT_FUNDED\<close>. A hash is recorded when the field holds one: the
  source tests the truth value of the field, which is false for \<open>None\<close> and for the empty
  string.
\<close>

theorem status_priority:
  "(safe_deployed f \<longrightarrow> lifecycle_state (status f) = Some DEPLOYED) \<and>
   (\<not> safe_deployed f \<and> truthy (safe_deployed_tx_hash f) \<longrightarrow>
      lifecycle_state (status f) = Some DEPLOYED_UNCONFIRMED) \<and>
   (\<not> safe_deployed f \<and> \<not> truthy (safe_deployed_tx_hash f) \<and> deployer_funded f \<longrightarrow>
      lifecycle_state (status f) = Some DEPLOYER_FUNDED) \<and>
   (\<not> safe_deployed f \<and> \<not> truthy (safe_deployed_tx_hash f) \<and> \<not> deployer_funded f \<and>
    truthy (deployer_funded_tx_hash f) \<longrightarrow>
      lifecycle_state (status f) = Some DEPLOYER_FUNDED_UNCONFIRMED) \<and>
   (\<not> safe_deployed f \<and> \<not> truthy (safe_deployed_tx_hash f) \<and> \<not> deployer_funded f \<and>
    \<not> truthy (deployer_funded_tx_hash f) \<and> safe_funded f \<longrightarrow>
      lifecycle_state (status f) = Some FUNDED_AWAITING_DEPLOYER) \<and>
   (\<not> safe_deployed f \<and> \<not> truthy (safe_deployed_tx_hash f) \<and> \<not> deployer_funded f \<and>
    \<not> truthy (deployer_funded_tx_hash f) \<and> \<not> safe_funded f \<longrightarrow>
      lifecycle_state (status f) = Some NOT_FUNDED)"
  by (simp add: status_def lifecycle_state_def)

text \<open>
  The theorem of claim C2 at six records of \<open>wallet_A\<close>, one for each state. Every record
  but the last also has the facts of the lower states set, so each line shows a
  higher fact taking priority.
\<close>

theorem status_priority_witness:
  "lifecycle_state (status (sample_funding wallet_A True True (Some ''0xf1'') True (Some ''0xd1'')))
     = Some DEPLOYED \<and>
   lifecycle_state (status (sample_funding wallet_A True True (Some ''0xf1'') False (Some ''0xd1'')))
     = Some DEPLOYED_UNCONFIRMED \<and>
   lifecycle_state (status (sample_funding wallet_A True True (Some ''0xf1'') False None))
     = Some DEPLOYER_FUNDED \<and>
   lifecycle_state (status (sample_funding wallet_A True False (Some ''0xf1'') False None))
     = Some DEPLOYER_FUNDED_UNCONFIRMED \<and>
   lifecycle_state (status (sample_funding wallet_A True False None False None))
     = Some FUNDED_AWAITING_DEPLOYER \<and>
   lifecycle_state (status (sample_funding wallet_A False False None False None))
     = Some NOT_FUNDED"
proof -
  have "lifecycle_state (status (sample_funding wallet_A True True (Some ''0xf1'') True (Some ''0xd1'')))
          = Some DEPLOYED"
    using status_priority [of "sample_funding wallet_A True True (Some ''0xf1'') True (Some ''0xd1'')"]
    by (simp add: sample_funding_def truthy_def)
  moreover
  have "lifecycle_state (status (sample_funding wallet_A True True (Some ''0xf1'') False (Some ''0xd1'')))
          = Some DEPLOYED_UNCONFIRMED"
    using status_priority [of "sample_funding wallet_A True True (Some ''0xf1'') False (Some ''0xd1'')"]
    by (simp add: sample_funding_def truthy_def)
  moreover
  have "lifecycle_state (status (sample_funding wallet_A True True (Some ''0xf1'') False None))
          = Some DEPLOYER_FUNDED"
    using status_priority [of "sample_funding wallet_A True True (Some ''0xf1'') False None"]
    by (simp add: sample_funding_def truthy_def)
  moreover
  have "lifecycle_state (status (sample_funding wallet_A True False (Some ''0xf1'') False None))
          = Some DEPLOYER_FUNDED_UNCONFIRMED"
    using status_priority [of "sample_funding wallet_A True False (Some ''0xf1'') False None"]
    by (simp add: sample_funding_def truthy_def)
  moreover
  have "lifecycle_state (status (sample_funding wallet_A True False None False None))
          = Some FUNDED_AWAITING_DEPLOYER"
    using status_priority [of "sample_funding wallet_A True False None False None"]
    by (simp add: sample_funding_def truthy_def)
  moreover
  have "lifecycle_state (status (sample_funding wallet_A False False None False None))
          = Some NOT_FUNDED"
    using status_priority [of "sample_funding wallet_A False False None False None"]
    by (simp add: sample_funding_def truthy_def)
  ultimately show ?thesis by blast
qed

text \<open>
  Claim C3. \<open>status\<close> is monotone in the recorded facts: when \<open>f2\<close> has every flag and
  every non-null hash of \<open>f1\<close>, the state of \<open>f2\<close> is at least as far along the lifecycle
  ordering as the state of \<open>f1\<close>. Adding a fact to a record gives such an \<open>f2\<close>, so it
  never moves the status back.
\<close>

theorem status_monotone:
  assumes "has_facts_of f1 f2"
  shows "\<exists>s1 s2. lifecycle_state (status f1) = Some s1 \<and> lifecycle_state (status f2) = Some s2 \<and>
           rank s1 \<le> rank s2"
proof -
  have t1: "truthy (safe_deployed_tx_hash f1) \<Longrightarrow> truthy (safe_deployed_tx_hash f2)"
    using assms by (auto simp: has_facts_of_def truthy_def split: option.splits)
  have t2: "truthy (deployer_funded_tx_hash f1) \<Longrightarrow> truthy (deployer_funded_tx_hash f2)"
    using assms by (auto simp: has_facts_of_def truthy_def split: option.splits)
  have b: "safe_funded f1 \<Longrightarrow> safe_funded f2" "deployer_funded f1 \<Longrightarrow> deployer_funded f2"
    "safe_deployed f1 \<Longrightarrow> safe_deployed f2"
    using assms by (auto simp: has_facts_of_def)
  show ?thesis
    using t1 t2 b by (auto simp: status_def lifecycle_state_def)
qed

text \<open>
  The theorem of claim C3 at a record with a balance and a deployer-funding hash, and the
  same record with the deployer funding marked mined and a deployment hash added.
\<close>

theorem status_monotone_witness:
  "has_facts_of (sample_funding wallet_A True False (Some ''0xf1'') False None)
                (sample_funding wallet_A True True (Some ''0xf1'') False (Some ''0xd1'')) \<and>
   (\<exists>s1 s2.
      lifecycle_state (status (sample_funding wallet_A True False (Some ''0xf1'') False None)) = Some s1 \<and>
      lifecycle_state (status (sample_funding wallet_A True True (Some ''0xf1'') False (Some ''0xd1''))) = Some s2 \<and>
      rank s1 \<le> rank s2)"
proof -
  have h: "has_facts_of (sample_funding wallet_A True False (Some ''0xf1'') False None)
                        (sample_funding wallet_A True True (Some ''0xf1'') False (Some ''0xd1''))"
    by (simp add: has_facts_of_def sample_funding_def)
  from h status_monotone [OF h] show ?thesis by blast
qed

text \<open>
  Claim C8 (amended). \<open>status\<close> does not check that the facts agree: a record with
  \<open>safe_deployed\<close> set and no deployment hash is \<open>DEPLOYED\<close>, and a record with
  \<open>deployer_funded\<close> set and no deployer-funding hash is \<open>DEPLOYER_FUNDED\<close> when neither
  deployment fact is recorded. A hash is not needed for either mined state.
\<close>

theorem status_no_cross_validation:
  "(safe_deployed f \<and> safe_deployed_tx_hash f = None \<longrightarrow>
      status f = ''DEPLOYED'' \<and> lifecycle_state (status f) = Some DEPLOYED) \<and>
   (\<not> safe_deployed f \<and> \<not> truthy (safe_deployed_tx_hash f) \<and>
    deployer_funded f \<and> deployer_funded_tx_hash f = None \<longrightarrow>
      status f = ''DEPLOYER_FUNDED'' \<and> lifecycle_state (status f) = Some DEPLOYER_FUNDED)"
  by (simp add: status_def lifecycle_state_def)

text \<open>
  The theorem of claim C8 at a record marked deployed with no hash at all, and at a record
  with the deployer funding marked mined and no hash at all.
\<close>

theorem status_no_cross_validation_witness:
  "safe_deployed (sample_funding wallet_A False False None True None) \<and>
   safe_deployed_tx_hash (sample_funding wallet_A False False None True None) = None \<and>
   status (sample_funding wallet_A False False None True None) = ''DEPLOYED'' \<and>
   deployer_funded (sample_funding wallet_A False True None False None) \<and>
   deployer_funded_tx_hash (sample_funding wallet_A False True None False None) = None \<and>
   status (sample_funding wallet_A False True None False None) = ''DEPLOYER_FUNDED''"
proof -
  have "status (sample_funding wallet_A False False None True None) = ''DEPLOYED''"
    using status_no_cross_validation [of "sample_funding wallet_A False False None True None"]
    by (simp add: sample_funding_def)
  moreover
  have "status (sample_funding wallet_A False True None False None) = ''DEPLOYER_FUNDED''"
    using status_no_cross_validation [of "sample_funding wallet_A False True None False None"]
    by (simp add: sample_funding_def truthy_def)
  ultimately show ?thesis by (simp add: sample_funding_def)
qed

text \<open>
  Claim C8 as stated fails in its second half: a record with \<open>deployer_funded\<close> set, no
  deployer-funding hash and \<open>safe_deployed\<close> set is \<open>DEPLOYED\<close>, not \<open>DEPLOYER_FUNDED\<close>.
\<close>

theorem status_deployer_funded_counterexample:
  "deployer_funded (sample_funding wallet_A True True None True None) \<and>
   deployer_funded_tx_hash (sample_funding wallet_A True True None True None) = None \<and>
   status (sample_funding wallet_A True True None True None) = ''DEPLOYED'' \<and>
   lifecycle_state (status (sample_funding wallet_A True True None True None)) \<noteq> Some DEPLOYER_FUNDED"
  by (simp add: sample_funding_def status_def lifecycle_state_def)

section \<open>Uniqueness in the store\<close>

lemma filter_pk_single:
  "distinct (map key rows) \<Longrightarrow> r \<in> set rows \<Longrightarrow> filter (\<lambda>x. key x = key r) rows = [r]"
proof (induction rows)
  case Nil
  then show ?case by simp
next
  case (Cons x xs)
  show ?case
  proof (cases "x = r")
    case True
    then have "key r \<notin> key ` set xs" using Cons.prems by simp
    then have "\<forall>x \<in> set xs. key x \<noteq> key r"
      by (metis imageI)
    then have "filter (\<lambda>x. key x = key r) xs = []"
      by (simp add: filter_empty_conv)
    with True show ?thesis by simp
  next
    case False
    then have "r \<in> set xs" using Cons.prems by simp
    moreover have "key x \<noteq> key r" using Cons.prems \<open>r \<in> set xs\<close> by auto
    ultimately show ?thesis using Cons by simp
  qed
qed

lemma column_unique_filter:
  "column_unique col rows \<Longrightarrow> column_unique col (filter P rows)"
  by (induction rows) (force simp: column_unique_def)+

lemma column_unique_snoc:
  "column_unique col rows \<Longrightarrow> \<not> clashes col (col row) rows \<Longrightarrow> column_unique col (rows @ [row])"
  by (auto simp: column_unique_def clashes_def)

lemma save_SafeCreation2_hashes_unique:
  "save_SafeCreation2 db row = Inr db' \<Longrightarrow> hashes_unique db \<Longrightarrow> hashes_unique db'"
  by (auto simp: save_SafeCreation2_def hashes_unique_def Let_def distinct_map_filter
           intro!: column_unique_snoc column_unique_filter split: if_splits)

lemma save_SafeFunding_hashes_unique:
  "save_SafeFunding db row = Inr db' \<Longrightarrow> hashes_unique db \<Longrightarrow> hashes_unique db'"
  by (auto simp: save_SafeFunding_def hashes_unique_def Let_def distinct_map_filter
           intro!: column_unique_snoc column_unique_filter split: if_splits)

lemma apply_write_hashes_unique:
  assumes "apply_write db w = Inr db'" and "hashes_unique db"
  shows "hashes_unique db'"
proof (cases w)
  case (SaveSafeContract x)
  with assms show ?thesis
    by (auto simp: save_SafeContract_def hashes_unique_def Let_def)
next
  case (SaveSafeCreation2 x)
  with assms show ?thesis
    using save_SafeCreation2_hashes_unique by simp
next
  case (SaveSafeFunding x)
  with assms show ?thesis
    using save_SafeFunding_hashes_unique by simp
next
  case (CreateEthereumTx x)
  with assms show ?thesis
    by (auto simp: create_EthereumTx_def hashes_unique_def split: if_splits)
next
  case (CreateSafeMultisigTx x)
  with assms show ?thesis
    by (auto simp: create_SafeMultisigTx_def hashes_unique_def Let_def split: if_splits)
qed

lemma apply_write_nonce_unique:
  "apply_write db w = Inr db' \<Longrightarrow> nonce_unique db \<Longrightarrow> nonce_unique db'"
  by (cases w)
     (auto simp: save_SafeContract_def save_SafeCreation2_def save_SafeFunding_def
         create_EthereumTx_def create_SafeMultisigTx_def nonce_unique_def Let_def
       split: if_splits)

lemma distinct_count_le_1:
  "distinct (map f xs) \<Longrightarrow> length (filter (\<lambda>x. f x = k) xs) \<le> 1"
  by (induction xs) (auto simp: filter_empty_conv image_iff)

lemma create_SafeMultisigTx_taken:
  "(SafeMultisigTx.safe row, SafeMultisigTx.nonce row)
     \<in> set (map (\<lambda>r. (SafeMultisigTx.safe r, SafeMultisigTx.nonce r)) (relay_safemultisigtx db)) \<Longrightarrow>
   create_SafeMultisigTx db row = Inl IntegrityError"
  by (simp add: create_SafeMultisigTx_def Let_def)

lemma apply_write_keeps_rows:
  "apply_write db w = Inr db' \<Longrightarrow>
   \<exists>rows'. relay_safemultisigtx db' = relay_safemultisigtx db @ rows'"
  by (cases w)
     (auto simp: save_SafeContract_def save_SafeCreation2_def save_SafeFunding_def
         create_EthereumTx_def create_SafeMultisigTx_def Let_def
       split: if_splits)

lemma run_writes_keeps_rows:
  "\<exists>rows'. relay_safemultisigtx (run_writes db ws) = relay_safemultisigtx db @ rows'"
proof (induction ws arbitrary: db)
  case Nil
  then show ?case by simp
next
  case (Cons w ws)
  show ?case
  proof (cases "apply_write db w")
    case (Inl e)
    then show ?thesis using Cons.IH[of db] by simp
  next
    case (Inr db')
    from apply_write_keeps_rows[OF Inr] obtain r1
      where r1: "relay_safemultisigtx db' = relay_safemultisigtx db @ r1" by blast
    from Cons.IH[of db'] obtain r2
      where r2: "relay_safemultisigtx (run_writes db' ws) = relay_safemultisigtx db' @ r2" by blast
    from r1 r2 Inr show ?thesis by simp
  qed
qed

lemma run_writes_nonce_unique:
  "nonce_unique db \<Longrightarrow> nonce_unique (run_writes db ws)"
proof (induction ws arbitrary: db)
  case Nil
  then show ?case by simp
next
  case (Cons w ws)
  then show ?case
    by (cases "apply_write db w") (auto dest: apply_write_nonce_unique)
qed

lemma sample_ledger_store:
  "sample_ledger =
     \<lparr>relay_safecontract = [sample_contract wallet_A, sample_contract wallet_B],
      relay_safecreation2 = [], relay_safefunding = [],
      relay_ethereumtx = [sample_ethereum_tx ''0xe1''],
      relay_safemultisigtx =
        [sample_multisig_tx wallet_A 0, sample_multisig_tx wallet_A 2,
         sample_multisig_tx wallet_B 7, sample_multisig_tx wallet_A 1]\<rparr>"
  by (simp add: sample_ledger_def sample_writes_def empty_store_def save_SafeContract_def
      create_EthereumTx_def create_SafeMultisigTx_def sample_contract_def
      sample_ethereum_tx_def sample_multisig_tx_def other_multisig_tx_def
      wallet_A_def wallet_B_def clashes_def)

lemma sample_ledger_rows:
  "relay_safemultisigtx sample_ledger =
     [sample_multisig_tx wallet_A 0, sample_multisig_tx wallet_A 2,
      sample_multisig_tx wallet_B 7, sample_multisig_tx wallet_A 1]"
  by (simp add: sample_ledger_store)

text \<open>
  Claim C1. No two transactions of a wallet share a nonce, and a nonce that a wallet has
  used is never used again. When the pairs (wallet, nonce) of a store are pairwise
  different, then after every sequence of writes: they are pairwise different, so every
  pair is held by at most one row; every row that was stored is still stored, in its
  place; the pair of a stored row is held by that row and no other; and the insert of any
  row whose pair is taken raises \<open>IntegrityError\<close> and leaves the store as it was.
\<close>

theorem nonce_never_reused:
  assumes "nonce_unique db"
  shows "nonce_unique (run_writes db ws) \<and>
         (\<forall>wallet n. length (filter (\<lambda>r. SafeMultisigTx.safe r = wallet \<and> SafeMultisigTx.nonce r = n)
                         (relay_safemultisigtx (run_writes db ws))) \<le> 1) \<and>
         (\<exists>rows'. relay_safemultisigtx (run_writes db ws) = relay_safemultisigtx db @ rows') \<and>
         (\<forall>r \<in> set (relay_safemultisigtx db).
            filter (\<lambda>x. SafeMultisigTx.safe x = SafeMultisigTx.safe r \<and>
                        SafeMultisigTx.nonce x = SafeMultisigTx.nonce r)
                   (relay_safemultisigtx (run_writes db ws)) = [r]) \<and>
         (\<forall>row. (SafeMultisigTx.safe row, SafeMultisigTx.nonce row)
                   \<in> set (map (\<lambda>r. (SafeMultisigTx.safe r, SafeMultisigTx.nonce r))
                              (relay_safemultisigtx db)) \<longrightarrow>
                 create_SafeMultisigTx db row = Inl IntegrityError \<and>
                 run_writes db (CreateSafeMultisigTx row # ws) = run_writes db ws)"
proof -
  let ?pair = "\<lambda>r. (SafeMultisigTx.safe r, SafeMultisigTx.nonce r)"
  let ?after = "relay_safemultisigtx (run_writes db ws)"
  have inv: "nonce_unique (run_writes db ws)"
    using assms by (rule run_writes_nonce_unique)
  have one: "length (filter (\<lambda>r. SafeMultisigTx.safe r = wallet \<and> SafeMultisigTx.nonce r = n) ?after) \<le> 1"
    for wallet n
    using distinct_count_le_1[of ?pair ?after "(wallet, n)"] inv
    by (simp add: nonce_unique_def)
  have kept: "\<exists>rows'. ?after = relay_safemultisigtx db @ rows'"
    by (rule run_writes_keeps_rows)
  have same: "filter (\<lambda>x. SafeMultisigTx.safe x = SafeMultisigTx.safe r \<and>
                          SafeMultisigTx.nonce x = SafeMultisigTx.nonce r) ?after = [r]"
    if "r \<in> set (relay_safemultisigtx db)" for r
  proof -
    from kept that have "r \<in> set ?after" by auto
    moreover have "distinct (map ?pair ?after)"
      using inv by (simp add: nonce_unique_def)
    ultimately have "filter (\<lambda>x. ?pair x = ?pair r) ?after = [r]"
      by (rule filter_pk_single[rotated])
    then show ?thesis by simp
  qed
  have refused: "create_SafeMultisigTx db row = Inl IntegrityError \<and>
                 run_writes db (CreateSafeMultisigTx row # ws) = run_writes db ws"
    if "?pair row \<in> set (map ?pair (relay_safemultisigtx db))" for row
    using create_SafeMultisigTx_taken[OF that] by simp
  from inv one kept same refused show ?thesis by blast
qed

text \<open>
  The theorem of claim C1 at the sample ledger and the retry writes. The ledger holds a
  transaction of \<open>wallet_A\<close> for nonce 2; the insert of another transaction for that nonce
  is refused, the nonce stays with the transaction that had it, and the transaction for
  the free nonce 3 is stored after the rows that were there.
\<close>

theorem nonce_never_reused_witness:
  "nonce_unique sample_ledger \<and>
   nonce_unique (run_writes sample_ledger sample_retry_writes) \<and>
   other_multisig_tx wallet_A 2 \<noteq> sample_multisig_tx wallet_A 2 \<and>
   create_SafeMultisigTx sample_ledger (other_multisig_tx wallet_A 2) = Inl IntegrityError \<and>
   filter (\<lambda>x. SafeMultisigTx.safe x = wallet_A \<and> SafeMultisigTx.nonce x = 2)
          (relay_safemultisigtx (run_writes sample_ledger sample_retry_writes)) =
     [sample_multisig_tx wallet_A 2] \<and>
   relay_safemultisigtx (run_writes sample_ledger sample_retry_writes) =
     relay_safemultisigtx sample_ledger @ [sample_multisig_tx wallet_A 3]"
proof -
  have h: "nonce_unique sample_ledger"
    by (simp add: nonce_unique_def sample_ledger_rows sample_multisig_tx_def
        wallet_A_def wallet_B_def)
  have d: "other_multisig_tx wallet_A 2 \<noteq> sample_multisig_tx wallet_A 2"
    by (simp add: other_multisig_tx_def sample_multisig_tx_def)
  have m: "sample_multisig_tx wallet_A 2 \<in> set (relay_safemultisigtx sample_ledger)"
    by (simp add: sample_ledger_rows)
  have t: "(SafeMultisigTx.safe (other_multisig_tx wallet_A 2),
            SafeMultisigTx.nonce (other_multisig_tx wallet_A 2))
             \<in> set (map (\<lambda>r. (SafeMultisigTx.safe r, SafeMultisigTx.nonce r))
                        (relay_safemultisigtx sample_ledger))"
    by (simp add: sample_ledger_rows other_multisig_tx_def sample_multisig_tx_def)
  have k: "SafeMultisigTx.safe (sample_multisig_tx wallet_A 2) = wallet_A"
    "SafeMultisigTx.nonce (sample_multisig_tx wallet_A 2) = 2"
    by (simp_all add: sample_multisig_tx_def)
  have r: "relay_safemultisigtx (run_writes sample_ledger sample_retry_writes) =
             relay_safemultisigtx sample_ledger @ [sample_multisig_tx wallet_A 3]"
    by (simp add: sample_ledger_store sample_retry_writes_def create_SafeMultisigTx_def
        sample_contract_def sample_ethereum_tx_def sample_multisig_tx_def
        other_multisig_tx_def wallet_A_def wallet_B_def clashes_def)
  from nonce_never_reused [OF h, of sample_retry_writes]
  have n: "nonce_unique (run_writes sample_ledger sample_retry_writes)"
    and s: "\<forall>r \<in> set (relay_safemultisigtx sample_ledger).
            filter (\<lambda>x. SafeMultisigTx.safe x = SafeMultisigTx.safe r \<and>
                        SafeMultisigTx.nonce x = SafeMultisigTx.nonce r)
                   (relay_safemultisigtx (run_writes sample_ledger sample_retry_writes)) = [r]"
    and f: "\<forall>row. (SafeMultisigTx.safe row, SafeMultisigTx.nonce row)
                   \<in> set (map (\<lambda>r. (SafeMultisigTx.safe r, SafeMultisigTx.nonce r))
                              (relay_safemultisigtx sample_ledger)) \<longrightarrow>
                 create_SafeMultisigTx sample_ledger row = Inl IntegrityError \<and>
                 run_writes sample_ledger (CreateSafeMultisigTx row # sample_retry_writes) =
                   run_writes sample_ledger sample_retry_writes"
    by blast+
  from s m k have s': "filter (\<lambda>x. SafeMultisigTx.safe x = wallet_A \<and> SafeMultisigTx.nonce x = 2)
          (relay_safemultisigtx (run_writes sample_ledger sample_retry_writes)) =
     [sample_multisig_tx wallet_A 2]"
    by fastforce
  from f t have f': "create_SafeMultisigTx sample_ledger (other_multisig_tx wallet_A 2) = Inl IntegrityError"
    by blast
  from h n d f' s' r show ?thesis by blast
qed

text \<open>
  Claim C4 (amended). The submission hash of a deployment intent, the deployer-funding
  hash and the deployment hash are each unique among the non-null values of their column,
  and a wallet has at most one intent and one funding record, in every store that a
  sequence of writes makes from a store where this holds.
\<close>

theorem hashes_stay_unique:
  "hashes_unique db \<Longrightarrow> hashes_unique (run_writes db ws)"
proof (induction ws arbitrary: db)
  case Nil
  then show ?case by simp
next
  case (Cons w ws)
  then show ?case
    by (cases "apply_write db w") (auto dest: apply_write_hashes_unique)
qed

text \<open>
  The theorem of claim C4 at the sample store and the sample hash writes: the two writes
  that would store a hash a second time are refused.
\<close>

theorem hashes_stay_unique_witness:
  "hashes_unique sample_store \<and>
   hashes_unique (run_writes sample_store sample_hash_writes) \<and>
   relay_safefunding (run_writes sample_store sample_hash_writes) =
     [sample_funding wallet_A True False (Some ''0xf2'') False None] \<and>
   relay_safecreation2 (run_writes sample_store sample_hash_writes) =
     [sample_creation2 wallet_A (Some ''0xd1'') (Some 5000000)]"
proof -
  have h: "hashes_unique sample_store"
    by (simp add: hashes_unique_def column_unique_def sample_store_def sample_funding_def
        sample_creation2_def)
  have f: "relay_safefunding (run_writes sample_store sample_hash_writes) =
             [sample_funding wallet_A True False (Some ''0xf2'') False None]"
    by (simp add: sample_hash_writes_def sample_store_def save_SafeContract_def
        save_SafeFunding_def save_SafeCreation2_def sample_contract_def sample_funding_def
        sample_creation2_def wallet_A_def wallet_B_def clashes_def)
  have c: "relay_safecreation2 (run_writes sample_store sample_hash_writes) =
             [sample_creation2 wallet_A (Some ''0xd1'') (Some 5000000)]"
    by (simp add: sample_hash_writes_def sample_store_def save_SafeContract_def
        save_SafeFunding_def save_SafeCreation2_def sample_contract_def sample_funding_def
        sample_creation2_def wallet_A_def wallet_B_def clashes_def)
  from h f c hashes_stay_unique [OF h, of sample_hash_writes] show ?thesis by blast
qed

text \<open>
  Claim C4 as stated fails: a recorded hash can be overwritten. The funding record of
  \<open>wallet_A\<close> holds the deployer-funding hash \<open>0xf1\<close>; saving the record with the hash
  \<open>0xf2\<close> breaks no declared constraint, and the store then holds \<open>0xf2\<close> for the wallet.
\<close>

theorem hash_overwritten_counterexample:
  "relay_safefunding sample_store = [sample_funding wallet_A True False (Some ''0xf1'') False None] \<and>
   save_SafeFunding sample_store (sample_funding wallet_A True False (Some ''0xf2'') False None) =
     Inr (sample_store\<lparr>relay_safefunding :=
            [sample_funding wallet_A True False (Some ''0xf2'') False None]\<rparr>) \<and>
   deployer_funded_tx_hash (sample_funding wallet_A True False (Some ''0xf2'') False None) \<noteq>
     deployer_funded_tx_hash (sample_funding wallet_A True False (Some ''0xf1'') False None)"
  by (simp add: sample_store_def save_SafeFunding_def sample_funding_def sample_contract_def
      clashes_def)

section \<open>The last nonce of a wallet\<close>

lemma first_order_by_desc:
  assumes "rows \<noteq> []"
  shows "\<exists>r. first (order_by_desc key rows) = Some r \<and> key r = Max (set (map key rows))"
proof -
  let ?s = "sort_key key rows"
  have sne: "?s \<noteq> []" using assms by (metis length_sort length_0_conv)
  have srt: "sorted (map key ?s)" by simp
  have "key (last ?s) = Max (set (map key ?s))"
  proof (rule sym, rule Max_eqI)
    show "finite (set (map key ?s))" by simp
    show "key (last ?s) \<in> set (map key ?s)" using last_in_set[OF sne] by auto
    fix y assume "y \<in> set (map key ?s)"
    then obtain i where i: "i < length ?s" "y = map key ?s ! i"
      by (metis in_set_conv_nth length_map)
    have "map key ?s ! i \<le> map key ?s ! (length ?s - 1)"
      using srt i sne by (intro sorted_nth_mono) auto
    then show "y \<le> key (last ?s)"
      using i sne by (simp add: last_conv_nth)
  qed
  moreover have "first (order_by_desc key rows) = Some (last ?s)"
    using sne by (cases "rev ?s") (auto simp: first_def order_by_desc_def hd_rev[symmetric])
  ultimately show ?thesis by simp
qed

text \<open>
  Claim C5. For every wallet, \<open>get_last_nonce_for_safe\<close> returns \<open>None\<close> when no multisig
  transaction is stored for the wallet and the greatest nonce among its transactions when
  some are; the wallet is the one the lookup value names, in whatever spelling the value
  has. The returned value plus one is above every nonce stored for the wallet, so it is a
  nonce the wallet has not used. A lookup value that is no address names no wallet: the
  call raises \<open>ValidationError\<close>.
\<close>

theorem get_last_nonce_is_max:
  "(get_prep_value a = None \<longrightarrow>
      get_last_nonce_for_safe get_prep_value db a = Inl ValidationError) \<and>
   (get_prep_value a = Some k \<and>
    filter (\<lambda>r. SafeMultisigTx.safe r = k) (relay_safemultisigtx db) = [] \<longrightarrow>
      get_last_nonce_for_safe get_prep_value db a = Inr None) \<and>
   (get_prep_value a = Some k \<and>
    filter (\<lambda>r. SafeMultisigTx.safe r = k) (relay_safemultisigtx db) \<noteq> [] \<longrightarrow>
      get_last_nonce_for_safe get_prep_value db a = Inr (Some (Max (nonces_of db k)))) \<and>
   (\<forall>n. get_prep_value a = Some k \<and>
        get_last_nonce_for_safe get_prep_value db a = Inr (Some n) \<longrightarrow>
      n + 1 \<notin> nonces_of db k \<and> (\<forall>m \<in> nonces_of db k. m < n + 1))"
proof -
  let ?rows = "filter (\<lambda>r. SafeMultisigTx.safe r = k) (relay_safemultisigtx db)"
  let ?get = "get_last_nonce_for_safe get_prep_value db a"
  have v: "get_prep_value a = None \<Longrightarrow> ?get = Inl ValidationError"
    by (simp add: get_last_nonce_for_safe_def)
  have e: "?get = Inr None" if "get_prep_value a = Some k" "?rows = []"
    using that by (simp add: get_last_nonce_for_safe_def order_by_desc_def first_def)
  have m: "?get = Inr (Some (Max (nonces_of db k)))" if "get_prep_value a = Some k" "?rows \<noteq> []"
    using first_order_by_desc[OF that(2), of SafeMultisigTx.nonce] that(1)
    by (auto simp: get_last_nonce_for_safe_def nonces_of_def)
  have f: "\<forall>m \<in> nonces_of db k. m < n + 1"
    if "get_prep_value a = Some k" "?get = Inr (Some n)" for n
  proof -
    have "?rows \<noteq> []" using that e by auto
    then have "n = Max (nonces_of db k)" using m that by simp
    moreover have "finite (nonces_of db k)" by (simp add: nonces_of_def)
    ultimately show ?thesis by (auto simp: less_Suc_eq_le)
  qed
  have g: "n + 1 \<notin> nonces_of db k"
    if "get_prep_value a = Some k" "?get = Inr (Some n)" for n
    using f[OF that] by auto
  show ?thesis using v e m f g by blast
qed

text \<open>
  The theorem of claim C5 at the sample ledger: for \<open>wallet_A\<close>, asked for in its
  lower-case spelling, the nonces 0, 2 and 1 give 2; \<open>wallet_C\<close>, which has no
  transaction, gives \<open>None\<close>; and a string that is no address raises.
\<close>

theorem get_last_nonce_is_max_witness:
  "prepares_samples wallet_A_lower = Some wallet_A \<and>
   filter (\<lambda>r. SafeMultisigTx.safe r = wallet_A) (relay_safemultisigtx sample_ledger) \<noteq> [] \<and>
   get_last_nonce_for_safe prepares_samples sample_ledger wallet_A_lower = Inr (Some 2) \<and>
   3 \<notin> nonces_of sample_ledger wallet_A \<and>
   prepares_samples wallet_C = Some wallet_C \<and>
   filter (\<lambda>r. SafeMultisigTx.safe r = wallet_C) (relay_safemultisigtx sample_ledger) = [] \<and>
   get_last_nonce_for_safe prepares_samples sample_ledger wallet_C = Inr None \<and>
   prepares_samples ''not an address'' = None \<and>
   get_last_nonce_for_safe prepares_samples sample_ledger ''not an address'' = Inl ValidationError"
proof -
  have p: "prepares_samples wallet_A_lower = Some wallet_A"
    "prepares_samples wallet_C = Some wallet_C"
    "prepares_samples ''not an address'' = None"
    by (simp_all add: prepares_samples_def wallet_A_def wallet_B_def wallet_C_def
        wallet_A_lower_def)
  have a: "filter (\<lambda>r. SafeMultisigTx.safe r = wallet_A) (relay_safemultisigtx sample_ledger) \<noteq> []"
    by (simp add: sample_ledger_rows sample_multisig_tx_def)
  have b: "filter (\<lambda>r. SafeMultisigTx.safe r = wallet_C) (relay_safemultisigtx sample_ledger) = []"
    by (simp add: sample_ledger_rows sample_multisig_tx_def wallet_A_def wallet_B_def
        wallet_C_def)
  have c: "nonces_of sample_ledger wallet_A = {0, 2, 1}"
    by (simp add: nonces_of_def sample_ledger_rows sample_multisig_tx_def wallet_A_def wallet_B_def)
  have d: "Max (nonces_of sample_ledger wallet_A) = 2" "3 \<notin> nonces_of sample_ledger wallet_A"
    by (simp_all add: c)
  from p a d get_last_nonce_is_max [of prepares_samples wallet_A_lower sample_ledger wallet_A]
  have r1: "get_last_nonce_for_safe prepares_samples sample_ledger wallet_A_lower = Inr (Some 2)"
    by simp
  from p b get_last_nonce_is_max [of prepares_samples wallet_C sample_ledger wallet_C]
  have r2: "get_last_nonce_for_safe prepares_samples sample_ledger wallet_C = Inr None"
    by simp
  from p get_last_nonce_is_max [of prepares_samples "''not an address''" sample_ledger wallet_C]
  have r3: "get_last_nonce_for_safe prepares_samples sample_ledger ''not an address'' =
              Inl ValidationError"
    by simp
  from p a b d r1 r2 r3 show ?thesis by blast
qed

section \<open>The views of SafeSignalView\<close>

text \<open>
  Claim C6 (amended). For an address that passes the checksum test, the get-status view
  answers 404 when no deployment intent is stored for it and 200 with the serialized
  intent (the row that holds the submission hash and the block number) when one is; for
  an address that fails the checksum test it answers 422 without looking anything up. It
  never changes the stored state.
\<close>

theorem SafeSignalView_get_responses:
  "(\<not> isChecksumAddress a \<longrightarrow>
      SafeSignalView_get isChecksumAddress serializer w a =
        (Inr (Response HTTP_422_UNPROCESSABLE_ENTITY None), w)) \<and>
   (isChecksumAddress a \<and> a \<notin> set (map SafeCreation2.safe (relay_safecreation2 (database w))) \<longrightarrow>
      SafeSignalView_get isChecksumAddress serializer w a =
        (Inr (Response HTTP_404_NOT_FOUND None), w)) \<and>
   (isChecksumAddress a \<and> distinct (map SafeCreation2.safe (relay_safecreation2 (database w))) \<and>
    r \<in> set (relay_safecreation2 (database w)) \<and> SafeCreation2.safe r = a \<longrightarrow>
      SafeSignalView_get isChecksumAddress serializer w a =
        (Inr (Response HTTP_200_OK (Some (serializer r))), w)) \<and>
   snd (SafeSignalView_get isChecksumAddress serializer w a) = w"
proof -
  let ?rows = "relay_safecreation2 (database w)"
  have none: "filter (\<lambda>x. SafeCreation2.safe x = a) ?rows = []"
    if "a \<notin> set (map SafeCreation2.safe ?rows)"
    using that by (auto simp: filter_empty_conv)
  have one: "filter (\<lambda>x. SafeCreation2.safe x = a) ?rows = [r]"
    if "distinct (map SafeCreation2.safe ?rows)" "r \<in> set ?rows" "SafeCreation2.safe r = a"
    using filter_pk_single[of SafeCreation2.safe ?rows r] that by simp
  have unchanged: "snd (SafeSignalView_get isChecksumAddress serializer w a) = w"
    by (simp add: SafeSignalView_get_def split: sum.splits db_error.splits)
  show ?thesis
    using none one unchanged
    by (auto simp: SafeSignalView_get_def objects_get_def)
qed

text \<open>
  The theorem of claim C6 on the sample world: the lower-case spelling of \<open>wallet_A\<close> gets
  422, \<open>wallet_B\<close>, which has no intent, gets 404, and \<open>wallet_A\<close> gets 200 with the hash
  and the block number of its intent.
\<close>

theorem SafeSignalView_get_responses_witness:
  "\<not> accepts_samples wallet_A_lower \<and>
   SafeSignalView_get accepts_samples hash_and_block sample_world wallet_A_lower =
     (Inr (Response HTTP_422_UNPROCESSABLE_ENTITY None), sample_world) \<and>
   accepts_samples wallet_B \<and>
   wallet_B \<notin> set (map SafeCreation2.safe (relay_safecreation2 (database sample_world))) \<and>
   SafeSignalView_get accepts_samples hash_and_block sample_world wallet_B =
     (Inr (Response HTTP_404_NOT_FOUND None), sample_world) \<and>
   accepts_samples wallet_A \<and>
   sample_creation2 wallet_A (Some ''0xd1'') (Some 5000000)
     \<in> set (relay_safecreation2 (database sample_world)) \<and>
   SafeSignalView_get accepts_samples hash_and_block sample_world wallet_A =
     (Inr (Response HTTP_200_OK (Some (Some ''0xd1'', Some 5000000))), sample_world)"
proof -
  have a: "\<not> accepts_samples wallet_A_lower" "accepts_samples wallet_B" "accepts_samples wallet_A"
    by (simp_all add: accepts_samples_def wallet_A_def wallet_B_def wallet_A_lower_def)
  have b: "wallet_B \<notin> set (map SafeCreation2.safe (relay_safecreation2 (database sample_world)))"
    by (simp add: sample_world_def sample_store_def sample_creation2_def wallet_A_def wallet_B_def)
  have c: "distinct (map SafeCreation2.safe (relay_safecreation2 (database sample_world)))"
    "sample_creation2 wallet_A (Some ''0xd1'') (Some 5000000)
       \<in> set (relay_safecreation2 (database sample_world))"
    "SafeCreation2.safe (sample_creation2 wallet_A (Some ''0xd1'') (Some 5000000)) = wallet_A"
    "hash_and_block (sample_creation2 wallet_A (Some ''0xd1'') (Some 5000000)) =
       (Some ''0xd1'', Some 5000000)"
    by (simp_all add: sample_world_def sample_store_def sample_creation2_def hash_and_block_def)
  from a b c
    SafeSignalView_get_responses [of accepts_samples wallet_A_lower hash_and_block sample_world]
    SafeSignalView_get_responses [of accepts_samples wallet_B hash_and_block sample_world]
    SafeSignalView_get_responses [of accepts_samples wallet_A hash_and_block sample_world
      "sample_creation2 wallet_A (Some ''0xd1'') (Some 5000000)"]
  show ?thesis by metis
qed

text \<open>
  Claim C6 as stated fails: no intent is stored for the lower-case spelling of
  \<open>wallet_A\<close>, and the view answers 422, not 404.
\<close>

theorem get_status_unchecksummed_counterexample:
  "wallet_A_lower \<notin> set (map SafeCreation2.safe (relay_safecreation2 (database sample_world))) \<and>
   fst (SafeSignalView_get accepts_samples hash_and_block sample_world wallet_A_lower) =
     Inr (Response HTTP_422_UNPROCESSABLE_ENTITY None) \<and>
   HTTP_422_UNPROCESSABLE_ENTITY \<noteq> HTTP_404_NOT_FOUND"
  by (simp add: SafeSignalView_get_def accepts_samples_def sample_world_def sample_store_def
      sample_creation2_def wallet_A_def wallet_B_def wallet_A_lower_def
      HTTP_422_UNPROCESSABLE_ENTITY_def HTTP_404_NOT_FOUND_def)

text \<open>
  Claim C7 (amended). For an address that passes the checksum test, the force-check view
  answers 202 and puts exactly one task, for that address, on the queue when a wallet
  record is stored for it, and answers 404 and leaves the queue as it was when none is;
  for an address that fails the checksum test it answers 422 and leaves the queue as it
  was.
\<close>

theorem SafeSignalView_put_responses:
  "(\<not> isChecksumAddress a \<longrightarrow>
      SafeSignalView_put isChecksumAddress w a =
        (Inr (Response HTTP_422_UNPROCESSABLE_ENTITY None), w)) \<and>
   (isChecksumAddress a \<and> a \<notin> set (map address (relay_safecontract (database w))) \<longrightarrow>
      SafeSignalView_put isChecksumAddress w a =
        (Inr (Response HTTP_404_NOT_FOUND None), w)) \<and>
   (isChecksumAddress a \<and> distinct (map address (relay_safecontract (database w))) \<and>
    a \<in> set (map address (relay_safecontract (database w))) \<longrightarrow>
      SafeSignalView_put isChecksumAddress w a =
        (Inr (Response HTTP_202_ACCEPTED None), w\<lparr>task_queue := task_queue w @ [a]\<rparr>))"
proof -
  let ?rows = "relay_safecontract (database w)"
  have none: "filter (\<lambda>x. address x = a) ?rows = []" if "a \<notin> set (map address ?rows)"
    using that by (auto simp: filter_empty_conv)
  have one: "\<exists>r. filter (\<lambda>x. address x = a) ?rows = [r]"
    if "distinct (map address ?rows)" "a \<in> set (map address ?rows)"
  proof -
    from that(2) obtain r where "r \<in> set ?rows" "address r = a" by auto
    then show ?thesis using filter_pk_single[of address ?rows r] that(1) by auto
  qed
  show ?thesis
    using none one
    by (auto simp: SafeSignalView_put_def objects_get_def)
qed

text \<open>
  The theorem of claim C7 on the sample world: the lower-case spelling of \<open>wallet_A\<close> gets
  422, \<open>wallet_B\<close>, which has no wallet record, gets 404, and \<open>wallet_A\<close> gets 202 and one
  task on the queue.
\<close>

theorem SafeSignalView_put_responses_witness:
  "\<not> accepts_samples wallet_A_lower \<and>
   SafeSignalView_put accepts_samples sample_world wallet_A_lower =
     (Inr (Response HTTP_422_UNPROCESSABLE_ENTITY (None :: unit option)), sample_world) \<and>
   accepts_samples wallet_B \<and>
   wallet_B \<notin> set (map address (relay_safecontract (database sample_world))) \<and>
   SafeSignalView_put accepts_samples sample_world wallet_B =
     (Inr (Response HTTP_404_NOT_FOUND (None :: unit option)), sample_world) \<and>
   accepts_samples wallet_A \<and>
   wallet_A \<in> set (map address (relay_safecontract (database sample_world))) \<and>
   SafeSignalView_put accepts_samples sample_world wallet_A =
     (Inr (Response HTTP_202_ACCEPTED (None :: unit option)),
      sample_world\<lparr>task_queue := [wallet_A]\<rparr>)"
proof -
  have a: "\<not> accepts_samples wallet_A_lower" "accepts_samples wallet_B" "accepts_samples wallet_A"
    by (simp_all add: accepts_samples_def wallet_A_def wallet_B_def wallet_A_lower_def)
  have b: "wallet_B \<notin> set (map address (relay_safecontract (database sample_world)))"
    by (simp add: sample_world_def sample_store_def sample_contract_def wallet_A_def wallet_B_def)
  have c: "distinct (map address (relay_safecontract (database sample_world)))"
    "wallet_A \<in> set (map address (relay_safecontract (database sample_world)))"
    by (simp_all add: sample_world_def sample_store_def sample_contract_def)
  have q: "sample_world\<lparr>task_queue := task_queue sample_world @ [wallet_A]\<rparr> =
           sample_world\<lparr>task_queue := [wallet_A]\<rparr>"
    by (simp add: sample_world_def)
  from a b c
    SafeSignalView_put_responses [of accepts_samples wallet_A_lower sample_world, where ?'a = unit]
    SafeSignalView_put_responses [of accepts_samples wallet_B sample_world, where ?'a = unit]
    SafeSignalView_put_responses [of accepts_samples wallet_A sample_world, where ?'a = unit]
  show ?thesis unfolding q by metis
qed

text \<open>
  Claim C7 as stated fails: no wallet record is stored for the lower-case spelling of
  \<open>wallet_A\<close>, and the view answers 422, not 404.
\<close>

theorem force_check_unchecksummed_counterexample:
  "wallet_A_lower \<notin> set (map address (relay_safecontract (database sample_world))) \<and>
   SafeSignalView_put accepts_samples sample_world wallet_A_lower =
     (Inr (Response HTTP_422_UNPROCESSABLE_ENTITY (None :: unit option)), sample_world) \<and>
   HTTP_422_UNPROCESSABLE_ENTITY \<noteq> HTTP_404_NOT_FOUND"
  by (simp add: SafeSignalView_put_def accepts_samples_def sample_world_def sample_store_def
      sample_contract_def wallet_A_def wallet_B_def wallet_A_lower_def
      HTTP_422_UNPROCESSABLE_ENTITY_def HTTP_404_NOT_FOUND_def)

section \<open>The RedisService singleton\<close>

lemma RedisService_known:
  "RedisService_instance s = Some a \<Longrightarrow>
   fst (RedisService url s) = a \<and> RedisService_instance (snd (RedisService url s)) = Some a"
  by (simp add: RedisService_def RedisService_new_def RedisService_init_def Redis_from_url_def
      allocate_def)

lemma RedisService_sets_instance:
  "RedisService_instance (snd (RedisService url s)) = Some (fst (RedisService url s))"
  by (simp add: RedisService_def RedisService_new_def RedisService_init_def Redis_from_url_def
      allocate_def split: option.splits)

lemma constructions_same:
  "RedisService_instance s = Some a \<Longrightarrow> fst (constructions url n s) = replicate n a"
proof (induction n arbitrary: s)
  case 0
  then show ?case by simp
next
  case (Suc n)
  from RedisService_known[OF Suc.prems, of url]
  have k: "fst (RedisService url s) = a"
    "RedisService_instance (snd (RedisService url s)) = Some a" by simp_all
  from Suc.IH[OF k(2)] k(1) show ?case
    by (simp add: case_prod_unfold)
qed

lemma RedisService_wf:
  "wf_interpreter s \<Longrightarrow> wf_interpreter (snd (RedisService url s))"
  by (auto simp: wf_interpreter_def RedisService_def RedisService_new_def RedisService_init_def
      Redis_from_url_def allocate_def split: option.splits)

lemma RedisService_first:
  "RedisService_instance s = None \<Longrightarrow>
   fst (RedisService url s) = next_ref s \<and>
   next_ref (snd (RedisService url s)) = next_ref s + 2"
  by (simp add: RedisService_def RedisService_new_def RedisService_init_def Redis_from_url_def
      allocate_def)

lemma RedisService_later:
  "RedisService_instance s = Some b \<Longrightarrow>
   fst (RedisService url s) = b \<and>
   next_ref (snd (RedisService url s)) = next_ref s + 1"
  by (simp add: RedisService_def RedisService_new_def RedisService_init_def Redis_from_url_def
      allocate_def)

text \<open>
  What \<open>__init__\<close> does in a constructor call: the object returned has its \<open>redis\<close>
  attribute set to the client that \<open>Redis.from_url\<close> made during the call, the last
  reference handed out; no other object changes.
\<close>

lemma RedisService_reinit:
  assumes "wf_interpreter s"
  shows "\<exists>client.
           heap (snd (RedisService url s)) (fst (RedisService url s)) =
             Some (RedisServiceObject (Some client)) \<and>
           heap (snd (RedisService url s)) client = Some (RedisObject url) \<and>
           client \<noteq> fst (RedisService url s) \<and>
           client + 1 = next_ref (snd (RedisService url s)) \<and>
           next_ref s \<le> client \<and>
           (\<forall>r. r \<noteq> fst (RedisService url s) \<and> r \<noteq> client \<longrightarrow>
                heap (snd (RedisService url s)) r = heap s r)"
proof (cases "RedisService_instance s")
  case None
  then show ?thesis
    by (intro exI[of _ "Suc (next_ref s)"])
       (simp add: RedisService_def RedisService_new_def RedisService_init_def Redis_from_url_def
         allocate_def)
next
  case (Some b)
  with assms have "b < next_ref s" by (simp add: wf_interpreter_def)
  with Some show ?thesis
    by (intro exI[of _ "next_ref s"])
       (simp add: RedisService_def RedisService_new_def RedisService_init_def Redis_from_url_def
         allocate_def)
qed

text \<open>
  Claim C9. Constructing \<open>RedisService\<close> is idempotent at the instance level. A constructor
  call that finds no instance makes one: the object it returns is a new reference, and the
  class attribute holds it afterwards. A call that finds an instance returns that instance
  and makes no service object. After a call has returned \<open>a\<close>, every later call returns
  \<open>a\<close> again. Yet every call runs \<open>__init__\<close>: it makes a new Redis client for the URL and
  sets the \<open>redis\<close> attribute of \<open>a\<close> to it, changes no other object, and the next call
  replaces that client by another new one.
\<close>

theorem RedisService_singleton:
  assumes "wf_interpreter s" and "RedisService url s = (a, s1)"
  shows "RedisService_instance s1 = Some a \<and> wf_interpreter s1 \<and>
         fst (constructions url n s1) = replicate n a \<and>
         (RedisService_instance s = None \<longrightarrow> a = next_ref s \<and> next_ref s1 = next_ref s + 2) \<and>
         (RedisService_instance s \<noteq> None \<longrightarrow>
            RedisService_instance s = Some a \<and> next_ref s1 = next_ref s + 1) \<and>
         (\<exists>client.
            heap s1 a = Some (RedisServiceObject (Some client)) \<and>
            heap s1 client = Some (RedisObject url) \<and>
            client \<noteq> a \<and> client + 1 = next_ref s1 \<and> next_ref s \<le> client \<and>
            (\<forall>r. r \<noteq> a \<and> r \<noteq> client \<longrightarrow> heap s1 r = heap s r) \<and>
            (\<exists>client'.
               fst (RedisService url s1) = a \<and>
               heap (snd (RedisService url s1)) a = Some (RedisServiceObject (Some client')) \<and>
               heap (snd (RedisService url s1)) client' = Some (RedisObject url) \<and>
               client' \<noteq> client \<and> client' \<noteq> a))"
proof -
  have a: "a = fst (RedisService url s)" and s1: "s1 = snd (RedisService url s)"
    using assms(2) by simp_all
  have i: "RedisService_instance s1 = Some a"
    using RedisService_sets_instance[of url s] a s1 by simp
  have w: "wf_interpreter s1"
    using RedisService_wf[OF assms(1), of url] s1 by simp
  have c1: "RedisService_instance s = None \<longrightarrow> a = next_ref s \<and> next_ref s1 = next_ref s + 2"
    using RedisService_first[of s url] a s1 by simp
  have c2: "RedisService_instance s \<noteq> None \<longrightarrow>
              RedisService_instance s = Some a \<and> next_ref s1 = next_ref s + 1"
    using RedisService_later[of s _ url] a s1 by auto
  from RedisService_reinit[OF assms(1), of url] a s1 obtain client where
    h: "heap s1 a = Some (RedisServiceObject (Some client))"
       "heap s1 client = Some (RedisObject url)" "client \<noteq> a"
       "client + 1 = next_ref s1" "next_ref s \<le> client"
       "\<forall>r. r \<noteq> a \<and> r \<noteq> client \<longrightarrow> heap s1 r = heap s r"
    by auto
  have a2: "fst (RedisService url s1) = a"
    using RedisService_known[OF i, of url] by simp
  from RedisService_reinit[OF w, of url] a2 obtain client' where
    h': "heap (snd (RedisService url s1)) a = Some (RedisServiceObject (Some client'))"
        "heap (snd (RedisService url s1)) client' = Some (RedisObject url)" "client' \<noteq> a"
        "next_ref s1 \<le> client'"
    by auto
  have ne: "client' \<noteq> client" using h(4) h'(4) by simp
  from i w constructions_same[OF i, of url n] c1 c2 h a2 h' ne show ?thesis
    by blast
qed

text \<open>
  The theorem of claim C9 at the fresh interpreter: the first call makes the service
  object 0 and the client 1, and sets the \<open>redis\<close> attribute of object 0 to client 1; the
  second call returns object 0 and sets its attribute to the new client 2; three calls
  after the first return object 0.
\<close>

theorem RedisService_singleton_witness:
  "wf_interpreter fresh_interpreter \<and>
   RedisService_instance fresh_interpreter = None \<and>
   fst (RedisService ''redis://localhost:6379/0'' fresh_interpreter) = 0 \<and>
   RedisService_instance (snd (RedisService ''redis://localhost:6379/0'' fresh_interpreter)) = Some 0 \<and>
   next_ref (snd (RedisService ''redis://localhost:6379/0'' fresh_interpreter)) = 2 \<and>
   heap (snd (RedisService ''redis://localhost:6379/0'' fresh_interpreter)) 0 =
     Some (RedisServiceObject (Some 1)) \<and>
   heap (snd (RedisService ''redis://localhost:6379/0'' fresh_interpreter)) 1 =
     Some (RedisObject ''redis://localhost:6379/0'') \<and>
   heap (snd (RedisService ''redis://localhost:6379/0''
                (snd (RedisService ''redis://localhost:6379/0'' fresh_interpreter)))) 0 =
     Some (RedisServiceObject (Some 2)) \<and>
   fst (constructions ''redis://localhost:6379/0'' 3
          (snd (RedisService ''redis://localhost:6379/0'' fresh_interpreter))) = [0, 0, 0]"
proof -
  let ?u = "''redis://localhost:6379/0''"
  have wf: "wf_interpreter fresh_interpreter"
    by (simp add: wf_interpreter_def fresh_interpreter_def)
  have n: "RedisService_instance fresh_interpreter = None"
    by (simp add: fresh_interpreter_def)
  have h: "RedisService ?u fresh_interpreter = (0, snd (RedisService ?u fresh_interpreter))"
    by (simp add: RedisService_def RedisService_new_def RedisService_init_def Redis_from_url_def
        allocate_def fresh_interpreter_def)
  have r: "replicate 3 (0::nat) = [0, 0, 0]"
    by (simp add: numeral_3_eq_3)
  have f: "fst (RedisService ?u fresh_interpreter) = 0"
    using h by (metis fst_conv)
  have e: "heap (snd (RedisService ?u fresh_interpreter)) 0 = Some (RedisServiceObject (Some 1))"
    "heap (snd (RedisService ?u fresh_interpreter)) 1 = Some (RedisObject ?u)"
    "heap (snd (RedisService ?u (snd (RedisService ?u fresh_interpreter)))) 0 =
       Some (RedisServiceObject (Some 2))"
    by (simp_all add: RedisService_def RedisService_new_def RedisService_init_def
        Redis_from_url_def allocate_def fresh_interpreter_def)
  have z: "next_ref fresh_interpreter = 0"
    by (simp add: fresh_interpreter_def)
  from RedisService_singleton [OF wf h, of 3] n z r
  have t: "RedisService_instance (snd (RedisService ?u fresh_interpreter)) = Some 0"
    "next_ref (snd (RedisService ?u fresh_interpreter)) = 2"
    "fst (constructions ?u 3 (snd (RedisService ?u fresh_interpreter))) = [0, 0, 0]"
    by simp_all
  from wf n f e t show ?thesis by blast
qed

end
